theory Spec2Isabelle
  imports Main
begin

section \<open>The host debugger as seen by the handler\<close>

text \<open>
  \<^verbatim>\<open>tdump.py\<close> is one function, \<^verbatim>\<open>handle_tdump_command\<close>, and everything it
  does is a call into the host debugger's scripting interface. The host is not part of
  the repository, so its behaviour is a parameter of the model: an opaque host state
  \<open>'h\<close>, the function the command interpreter applies to a command and a return object,
  and the function that reports the selected target. The calls the handler makes are
  recorded, oldest first, in a call log, as a mocked host would record them.
\<close>

text \<open>The return status constants of the host's scripting interface.\<close>

datatype ReturnStatus =
    eReturnStatusInvalid
  | eReturnStatusSuccessFinishNoResult
  | eReturnStatusSuccessFinishResult
  | eReturnStatusSuccessContinuingNoResult
  | eReturnStatusSuccessContinuingResult
  | eReturnStatusStarted
  | eReturnStatusFailed
  | eReturnStatusQuit

text \<open>A process is known to the handler only as a handle.\<close>

type_synonym SBProcess = nat

text \<open>
  A target: the text that \<^verbatim>\<open>'{}'.format(target)\<close> inserts for it (its \<^verbatim>\<open>str()\<close>, the
  target's name) and the process that \<^verbatim>\<open>target.GetProcess()\<close> returns.
\<close>

record SBTarget =
  str :: string
  process_of :: SBProcess

text \<open>
  The execution context handed to the handler at invocation; the handler reads
  \<^verbatim>\<open>ctx.target\<close> only.
\<close>

record SBExecutionContext =
  target :: SBTarget
  process :: SBProcess

text \<open>
  A command return object: the error text that \<^verbatim>\<open>GetError()\<close> reads and the output
  text. \<^verbatim>\<open>lldb.SBCommandReturnObject()\<close> creates one with both empty.
\<close>

record SBCommandReturnObject =
  error :: string
  out :: string

definition SBCommandReturnObject_new :: SBCommandReturnObject where
  "SBCommandReturnObject_new = \<lparr>error = [], out = []\<rparr>"

definition GetError :: "SBCommandReturnObject \<Rightarrow> string" where
  "GetError res = error res"

text \<open>
  The calls of one invocation. \<open>Call_HandleCommand\<close> carries the command string, the
  return object as it was passed in and the same object as the interpreter left it;
  \<open>Call_SetError\<close> and \<open>Call_SetStatus\<close> are the writes to the result sink
  (the \<^verbatim>\<open>result\<close> parameter).
\<close>

datatype call =
    Call_SBCommandReturnObject
  | Call_GetCommandInterpreter
  | Call_HandleCommand string SBCommandReturnObject SBCommandReturnObject
  | Call_SetError string
  | Call_GetSelectedTarget
  | Call_GetProcess SBTarget
  | Call_SetStatus ReturnStatus
  | Call_SetAsync bool
  | Call_Continue SBProcess

text \<open>The host's behaviour: the interpreter and the selected-target accessor.\<close>

record 'h lldb =
  interpreter :: "string \<Rightarrow> SBCommandReturnObject \<Rightarrow> 'h \<Rightarrow> SBCommandReturnObject \<times> 'h"
  selected_target :: "'h \<Rightarrow> SBTarget"

record 'h world =
  host :: 'h
  calls :: "call list"

definition log :: "call \<Rightarrow> 'h world \<Rightarrow> 'h world" where
  "log c w = w\<lparr>calls := calls w @ [c]\<rparr>"

definition HandleCommand ::
  "'h lldb \<Rightarrow> string \<Rightarrow> SBCommandReturnObject \<Rightarrow> 'h world \<Rightarrow> SBCommandReturnObject \<times> 'h world" where
  "HandleCommand api command res w =
     (let (res', h') = interpreter api command res (host w)
      in (res', log (Call_HandleCommand command res res') (w\<lparr>host := h'\<rparr>)))"

definition GetSelectedTarget :: "'h lldb \<Rightarrow> 'h world \<Rightarrow> SBTarget \<times> 'h world" where
  "GetSelectedTarget api w = (selected_target api (host w), log Call_GetSelectedTarget w)"

definition GetProcess :: "SBTarget \<Rightarrow> 'h world \<Rightarrow> SBProcess \<times> 'h world" where
  "GetProcess tgt w = (process_of tgt, log (Call_GetProcess tgt) w)"

section \<open>The handler\<close>

text \<open>
  The list literal of the handler:
  \<^verbatim>\<open>
  commands = [
      'e -l swift -- import {}'.format(ctx.target),
      'e -l swift -- import UIKit',
      'e -l swift -- TreeDumpDebugger.present({})'.format(expression),
      'e -l swift -- CATransaction.flush()'
      ]
  \<close>
\<close>

definition commands :: "SBExecutionContext \<Rightarrow> string \<Rightarrow> string list" where
  "commands ctx expression =
     [ ''e -l swift -- import '' @ str (target ctx),
       ''e -l swift -- import UIKit'',
       ''e -l swift -- TreeDumpDebugger.present('' @ expression @ '')'',
       ''e -l swift -- CATransaction.flush()'' ]"

text \<open>
  The loop:
  \<^verbatim>\<open>
  for command in commands:
      interpreter.HandleCommand(command, res)
      if res.GetError():
          result.SetError(res.GetError())
          return
  \<close>
  The first component of the value is \<open>True\<close> when the loop left the function through
  \<^verbatim>\<open>return\<close>. A Python string is true when it is not empty.
\<close>

fun for_command ::
  "'h lldb \<Rightarrow> string list \<Rightarrow> SBCommandReturnObject \<Rightarrow> 'h world \<Rightarrow> bool \<times> 'h world" where
  "for_command api [] res w = (False, w)"
| "for_command api (command # rest) res w =
     (let (res', w') = HandleCommand api command res w
      in if GetError res' \<noteq> []
         then (True, log (Call_SetError (GetError res')) w')
         else for_command api rest res' w')"

text \<open>
  \<^verbatim>\<open>
  def handle_tdump_command(debugger, expression, ctx, result, internal_dict):
      res = lldb.SBCommandReturnObject()
      interpreter = debugger.GetCommandInterpreter()
      commands = [...]
      for command in commands: ...
      target = debugger.GetSelectedTarget()
      process = target.GetProcess()
      result.SetStatus(lldb.eReturnStatusSuccessContinuingNoResult)
      debugger.SetAsync(True)
      process.Continue()
  \<close>
\<close>

definition handle_tdump_command ::
  "'h lldb \<Rightarrow> string \<Rightarrow> SBExecutionContext \<Rightarrow> 'h world \<Rightarrow> 'h world" where
  "handle_tdump_command api expression ctx w =
     (let res = SBCommandReturnObject_new;
          w1 = log Call_SBCommandReturnObject w;
          w2 = log Call_GetCommandInterpreter w1;
          (returned, w3) = for_command api (commands ctx expression) res w2
      in if returned then w3
         else
           (let (tgt, w4) = GetSelectedTarget api w3;
                (proc, w5) = GetProcess tgt w4;
                w6 = log (Call_SetStatus eReturnStatusSuccessContinuingNoResult) w5;
                w7 = log (Call_SetAsync True) w6
            in log (Call_Continue proc) w7))"

text \<open>One invocation of the command in host state \<open>h\<close>, and the calls it makes.\<close>

definition invoke :: "'h lldb \<Rightarrow> string \<Rightarrow> SBExecutionContext \<Rightarrow> 'h \<Rightarrow> 'h world" where
  "invoke api expression ctx h = handle_tdump_command api expression ctx \<lparr>host = h, calls = []\<rparr>"

definition invocation :: "'h lldb \<Rightarrow> string \<Rightarrow> SBExecutionContext \<Rightarrow> 'h \<Rightarrow> call list" where
  "invocation api expression ctx h = calls (invoke api expression ctx h)"

section \<open>Observing a call log\<close>

text \<open>
  One interpreter submission of a log: the command string, the return object as it was
  passed in, and the return object as the interpreter left it.
\<close>

record submission =
  cmd :: string
  passed :: SBCommandReturnObject
  returned :: SBCommandReturnObject

fun submissions :: "call list \<Rightarrow> submission list" where
  "submissions [] = []"
| "submissions (Call_HandleCommand c rin rout # t) =
     \<lparr>cmd = c, passed = rin, returned = rout\<rparr> # submissions t"
| "submissions (_ # t) = submissions t"

text \<open>The command strings handed to the interpreter, in the order of submission.\<close>

definition submitted :: "call list \<Rightarrow> string list" where
  "submitted t = map cmd (submissions t)"

text \<open>The writes to the result sink, in order.\<close>

fun is_sink_write :: "call \<Rightarrow> bool" where
  "is_sink_write (Call_SetError e) = True"
| "is_sink_write (Call_SetStatus s) = True"
| "is_sink_write _ = False"

definition sink_writes :: "call list \<Rightarrow> call list" where
  "sink_writes t = filter is_sink_write t"

text \<open>The processes resumed and the values given to \<^verbatim>\<open>SetAsync\<close>, in order.\<close>

fun resumed :: "call list \<Rightarrow> SBProcess list" where
  "resumed [] = []"
| "resumed (Call_Continue p # t) = p # resumed t"
| "resumed (_ # t) = resumed t"

fun async_sets :: "call list \<Rightarrow> bool list" where
  "async_sets [] = []"
| "async_sets (Call_SetAsync b # t) = b # async_sets t"
| "async_sets (_ # t) = async_sets t"

text \<open>The number of return objects the log allocates.\<close>

definition allocations :: "call list \<Rightarrow> nat" where
  "allocations t = length (filter (\<lambda>c. c = Call_SBCommandReturnObject) t)"

text \<open>
  What the interpreter leaves when it evaluates commands one after another on one return
  object, with no check in between: the return object and the host state.
\<close>

definition evaluated ::
  "'h lldb \<Rightarrow> string list \<Rightarrow> SBCommandReturnObject \<times> 'h \<Rightarrow> SBCommandReturnObject \<times> 'h" where
  "evaluated api cs s = foldl (\<lambda>(r, h) c. interpreter api c r h) s cs"

text \<open>The call that a submission stands for.\<close>

definition HC :: "submission \<Rightarrow> call" where
  "HC s = Call_HandleCommand (cmd s) (passed s) (returned s)"

text \<open>
  A list of submissions is chained from \<open>r\<close> when the first is passed \<open>r\<close> and each
  later one is passed what the one before it returned.
\<close>

fun chained :: "SBCommandReturnObject \<Rightarrow> submission list \<Rightarrow> bool" where
  "chained r [] = True"
| "chained r (s # ss) = (passed s = r \<and> chained (returned s) ss)"

text \<open>
  The target that is selected once the interpreter has evaluated the four commands of an
  invocation started in host state \<open>h\<close>.
\<close>

definition target_at_resume :: "'h lldb \<Rightarrow> string \<Rightarrow> SBExecutionContext \<Rightarrow> 'h \<Rightarrow> SBTarget" where
  "target_at_resume api expression ctx h =
     selected_target api
       (snd (evaluated api (commands ctx expression) (SBCommandReturnObject_new, h)))"


section \<open>A mocked host\<close>

text \<open>
  The host state of the mock counts the commands evaluated so far and holds the selected
  target. The \<open>k\<close>-th evaluation reports an error; every other evaluation appends a
  mark \<open>+\<close> to the output text of the return object it is given and clears nothing.
  \<open>mock 0\<close> never fails.
\<close>

definition mock :: "nat \<Rightarrow> (nat \<times> SBTarget) lldb" where
  "mock k =
     \<lparr>interpreter = (\<lambda>c r (n, sel).
        ((if Suc n = k then r\<lparr>error := ''error: '' @ c\<rparr> else r\<lparr>out := out r @ ''+''\<rparr>),
         (Suc n, sel))),
      selected_target = snd\<rparr>"

definition MyApp :: SBTarget where
  "MyApp = \<lparr>str = ''MyApp'', process_of = 1\<rparr>"

definition Other :: SBTarget where
  "Other = \<lparr>str = ''Other'', process_of = 2\<rparr>"

definition ctx_MyApp :: SBExecutionContext where
  "ctx_MyApp = \<lparr>target = MyApp, process = 1\<rparr>"

section \<open>The loop and the shape of an invocation\<close>

lemma calls_log [simp]: "calls (log c w) = calls w @ [c]"
  by (simp add: log_def)

lemma host_log [simp]: "host (log c w) = host w"
  by (simp add: log_def)

lemma HandleCommand_calls:
  "HandleCommand api c res w = (res', w') \<Longrightarrow> calls w' = calls w @ [Call_HandleCommand c res res']"
  by (auto simp: HandleCommand_def Let_def split: prod.splits)

lemma HandleCommand_host:
  "HandleCommand api c res w = (res', w') \<Longrightarrow> (res', host w') = interpreter api c res (host w)"
  by (auto simp: HandleCommand_def Let_def split: prod.splits)

lemma evaluated_Nil [simp]: "evaluated api [] s = s"
  by (simp add: evaluated_def)

lemma evaluated_Cons [simp]:
  "evaluated api (c # cs) (r, h) = evaluated api cs (interpreter api c r h)"
  by (simp add: evaluated_def)

lemma for_command_shape:
  "for_command api cs res w = (ret, w') \<Longrightarrow>
   \<exists>subs. calls w' = calls w @ map HC subs
             @ (if ret then [Call_SetError (GetError (returned (last subs)))] else [])
      \<and> host w' = snd (evaluated api (map cmd subs) (res, host w))
      \<and> map cmd subs = take (length subs) cs
      \<and> chained res subs
      \<and> (\<forall>s\<in>set (butlast subs). GetError (returned s) = [])
      \<and> (ret \<longrightarrow> subs \<noteq> [] \<and> GetError (returned (last subs)) \<noteq> [])
      \<and> (\<not> ret \<longrightarrow> length subs = length cs \<and> (\<forall>s\<in>set subs. GetError (returned s) = []))"
proof (induction cs arbitrary: res w)
  case Nil
  then show ?case by (intro exI[of _ "[]"]) auto
next
  case (Cons c cs)
  obtain r1 w1 where step: "HandleCommand api c res w = (r1, w1)"
    by (cases "HandleCommand api c res w")
  have w1: "calls w1 = calls w @ [Call_HandleCommand c res r1]"
    using step by (rule HandleCommand_calls)
  have h1: "interpreter api c res (host w) = (r1, host w1)"
    using step by (rule HandleCommand_host[symmetric])
  show ?case
  proof (cases "GetError r1 = []")
    case False
    with Cons.prems step have "ret" and "w' = log (Call_SetError (GetError r1)) w1"
      by auto
    with w1 h1 False show ?thesis
      by (intro exI[of _ "[\<lparr>cmd = c, passed = res, returned = r1\<rparr>]"]) (simp add: HC_def)
  next
    case True
    with Cons.prems step have "for_command api cs r1 w1 = (ret, w')"
      by simp
    from Cons.IH[OF this] obtain subs where
      a: "calls w' = calls w1 @ map HC subs
             @ (if ret then [Call_SetError (GetError (returned (last subs)))] else [])"
      and h: "host w' = snd (evaluated api (map cmd subs) (r1, host w1))"
      and b: "map cmd subs = take (length subs) cs"
      and c: "chained r1 subs"
      and d: "\<forall>s\<in>set (butlast subs). GetError (returned s) = []"
      and e: "ret \<longrightarrow> subs \<noteq> [] \<and> GetError (returned (last subs)) \<noteq> []"
      and f: "\<not> ret \<longrightarrow> length subs = length cs \<and> (\<forall>s\<in>set subs. GetError (returned s) = [])"
      by blast
    show ?thesis
      using a h b c d e f w1 h1 True
      by (intro exI[of _ "\<lparr>cmd = c, passed = res, returned = r1\<rparr> # subs"])
         (auto simp: HC_def)
  qed
qed

lemma submissions_append: "submissions (xs @ ys) = submissions xs @ submissions ys"
  by (induction xs rule: submissions.induct) auto

lemma submissions_HC [simp]: "submissions (map HC subs) = subs"
  by (induction subs) (auto simp: HC_def)

lemma resumed_append: "resumed (xs @ ys) = resumed xs @ resumed ys"
  by (induction xs rule: resumed.induct) auto

lemma resumed_HC [simp]: "resumed (map HC subs) = []"
  by (induction subs) (auto simp: HC_def)

lemma async_sets_append: "async_sets (xs @ ys) = async_sets xs @ async_sets ys"
  by (induction xs rule: async_sets.induct) auto

lemma async_sets_HC [simp]: "async_sets (map HC subs) = []"
  by (induction subs) (auto simp: HC_def)

lemma sink_writes_HC [simp]: "filter is_sink_write (map HC subs) = []"
  by (induction subs) (auto simp: HC_def)

lemma alloc_HC [simp]: "filter (\<lambda>c. c = Call_SBCommandReturnObject) (map HC subs) = []"
  by (induction subs) (auto simp: HC_def)

lemma length_commands [simp]: "length (commands ctx expression) = 4"
  by (simp add: commands_def)

lemma invocation_cases:
  obtains
    (failed) subs where
      "invocation api expression ctx h =
         Call_SBCommandReturnObject # Call_GetCommandInterpreter # map HC subs
           @ [Call_SetError (GetError (returned (last subs)))]"
      "subs \<noteq> []"
      "length subs \<le> 4"
      "map cmd subs = take (length subs) (commands ctx expression)"
      "chained SBCommandReturnObject_new subs"
      "\<forall>s\<in>set (butlast subs). GetError (returned s) = []"
      "GetError (returned (last subs)) \<noteq> []"
      "host (invoke api expression ctx h) =
         snd (evaluated api (map cmd subs) (SBCommandReturnObject_new, h))"
  | (succeeded) subs where
      "invocation api expression ctx h =
         Call_SBCommandReturnObject # Call_GetCommandInterpreter # map HC subs
           @ [Call_GetSelectedTarget, Call_GetProcess (target_at_resume api expression ctx h),
              Call_SetStatus eReturnStatusSuccessContinuingNoResult,
              Call_SetAsync True, Call_Continue (process_of (target_at_resume api expression ctx h))]"
      "length subs = 4"
      "map cmd subs = commands ctx expression"
      "chained SBCommandReturnObject_new subs"
      "\<forall>s\<in>set subs. GetError (returned s) = []"
proof -
  let ?w2 = "log Call_GetCommandInterpreter (log Call_SBCommandReturnObject \<lparr>host = h, calls = []\<rparr>)"
  obtain ret w3 where loop: "for_command api (commands ctx expression) SBCommandReturnObject_new ?w2 = (ret, w3)"
    by (cases "for_command api (commands ctx expression) SBCommandReturnObject_new ?w2")
  have hw2: "host ?w2 = h" by simp
  from for_command_shape[OF loop, unfolded hw2] obtain subs where
      a: "calls w3 = calls ?w2 @ map HC subs
             @ (if ret then [Call_SetError (GetError (returned (last subs)))] else [])"
      and hw: "host w3 = snd (evaluated api (map cmd subs) (SBCommandReturnObject_new, h))"
      and b: "map cmd subs = take (length subs) (commands ctx expression)"
      and c: "chained SBCommandReturnObject_new subs"
      and d: "\<forall>s\<in>set (butlast subs). GetError (returned s) = []"
      and e: "ret \<longrightarrow> subs \<noteq> [] \<and> GetError (returned (last subs)) \<noteq> []"
      and f: "\<not> ret \<longrightarrow> length subs = length (commands ctx expression) \<and> (\<forall>s\<in>set subs. GetError (returned s) = [])"
    by blast
  show thesis
  proof (cases ret)
    case True
    have "length (map cmd subs) \<le> 4"
      by (subst b) simp
    then have len: "length subs \<le> 4" by simp
    have "invocation api expression ctx h =
         Call_SBCommandReturnObject # Call_GetCommandInterpreter # map HC subs
           @ [Call_SetError (GetError (returned (last subs)))]"
      using loop a True
      by (simp add: invocation_def invoke_def handle_tdump_command_def Let_def)
    moreover have "host (invoke api expression ctx h) = host w3"
      using loop True by (simp add: invoke_def handle_tdump_command_def Let_def)
    ultimately show ?thesis
      using True b c d e len hw by (intro failed) auto
  next
    case False
    have h3: "host w3 = snd (evaluated api (commands ctx expression) (SBCommandReturnObject_new, h))"
      using hw b f False by simp
    have "invocation api expression ctx h =
         Call_SBCommandReturnObject # Call_GetCommandInterpreter # map HC subs
           @ [Call_GetSelectedTarget, Call_GetProcess (target_at_resume api expression ctx h),
              Call_SetStatus eReturnStatusSuccessContinuingNoResult,
              Call_SetAsync True, Call_Continue (process_of (target_at_resume api expression ctx h))]"
      using loop a False h3
      by (simp add: invocation_def invoke_def handle_tdump_command_def Let_def
            GetSelectedTarget_def GetProcess_def target_at_resume_def)
    then show ?thesis
      using False b c f by (intro succeeded) auto
  qed
qed

section \<open>Runs of the mocked host\<close>

lemmas run_simps = invocation_def invoke_def handle_tdump_command_def commands_def
  HandleCommand_def GetSelectedTarget_def GetProcess_def log_def mock_def
  SBCommandReturnObject_new_def GetError_def MyApp_def Other_def ctx_MyApp_def Let_def

lemma mock_ok_run:
  "invocation (mock 0) ''self.view'' ctx_MyApp (0, sel) =
   [Call_SBCommandReturnObject, Call_GetCommandInterpreter,
    Call_HandleCommand ''e -l swift -- import MyApp''
      \<lparr>error = [], out = []\<rparr> \<lparr>error = [], out = ''+''\<rparr>,
    Call_HandleCommand ''e -l swift -- import UIKit''
      \<lparr>error = [], out = ''+''\<rparr> \<lparr>error = [], out = ''++''\<rparr>,
    Call_HandleCommand ''e -l swift -- TreeDumpDebugger.present(self.view)''
      \<lparr>error = [], out = ''++''\<rparr> \<lparr>error = [], out = ''+++''\<rparr>,
    Call_HandleCommand ''e -l swift -- CATransaction.flush()''
      \<lparr>error = [], out = ''+++''\<rparr> \<lparr>error = [], out = ''++++''\<rparr>,
    Call_GetSelectedTarget, Call_GetProcess sel,
    Call_SetStatus eReturnStatusSuccessContinuingNoResult, Call_SetAsync True,
    Call_Continue (process_of sel)]"
  by (simp add: run_simps)

lemma mock_fail3_run:
  "invocation (mock 3) ''self.view'' ctx_MyApp (0, sel) =
   [Call_SBCommandReturnObject, Call_GetCommandInterpreter,
    Call_HandleCommand ''e -l swift -- import MyApp''
      \<lparr>error = [], out = []\<rparr> \<lparr>error = [], out = ''+''\<rparr>,
    Call_HandleCommand ''e -l swift -- import UIKit''
      \<lparr>error = [], out = ''+''\<rparr> \<lparr>error = [], out = ''++''\<rparr>,
    Call_HandleCommand ''e -l swift -- TreeDumpDebugger.present(self.view)''
      \<lparr>error = [], out = ''++''\<rparr>
      \<lparr>error = ''error: e -l swift -- TreeDumpDebugger.present(self.view)'', out = ''++''\<rparr>,
    Call_SetError ''error: e -l swift -- TreeDumpDebugger.present(self.view)'']"
  by (simp add: run_simps)

lemma mock_fail1_run:
  "invocation (mock 1) ''self.view'' ctx_MyApp (0, sel) =
   [Call_SBCommandReturnObject, Call_GetCommandInterpreter,
    Call_HandleCommand ''e -l swift -- import MyApp''
      \<lparr>error = [], out = []\<rparr> \<lparr>error = ''error: e -l swift -- import MyApp'', out = []\<rparr>,
    Call_SetError ''error: e -l swift -- import MyApp'']"
  by (simp add: run_simps)

lemma mock_late_run:
  "submitted (invocation (mock 1) ''self.view'' ctx_MyApp (1, sel)) =
   [''e -l swift -- import MyApp'', ''e -l swift -- import UIKit'',
    ''e -l swift -- TreeDumpDebugger.present(self.view)'',
    ''e -l swift -- CATransaction.flush()'']"
  by (simp add: run_simps submitted_def)

lemma mock_quote_run:
  "submitted (invocation (mock 0) ''it's'' ctx_MyApp (0, sel)) =
   [''e -l swift -- import MyApp'', ''e -l swift -- import UIKit'',
    ''e -l swift -- TreeDumpDebugger.present(it's)'',
    ''e -l swift -- CATransaction.flush()'']"
  by (simp add: run_simps submitted_def)

section \<open>Facts about call logs\<close>

lemma failing_is_last:
  assumes "\<forall>s\<in>set (butlast subs). GetError (returned s) = []"
    and "1 \<le> k" and "k \<le> length subs"
    and "GetError (returned (subs ! (k - 1))) \<noteq> []"
  shows "k = length subs" and "subs ! (k - 1) = last subs"
proof -
  show k: "k = length subs"
  proof (rule ccontr)
    assume "k \<noteq> length subs"
    with assms(2,3) have lt: "k - 1 < length (butlast subs)" by simp
    then have "butlast subs ! (k - 1) \<in> set (butlast subs)" by (rule nth_mem)
    moreover have "butlast subs ! (k - 1) = subs ! (k - 1)"
      using lt by (simp add: nth_butlast)
    ultimately show False using assms(1,4) by auto
  qed
  from assms(2) k have "subs \<noteq> []" by auto
  then show "subs ! (k - 1) = last subs"
    using k by (simp add: last_conv_nth)
qed

lemmas log_simps = submitted_def submissions_append resumed_append async_sets_append
  sink_writes_def allocations_def

lemma submissions_invocation_nonempty: "submissions (invocation api expression ctx h) \<noteq> []"
  by (cases rule: invocation_cases[of api expression ctx h]) (auto simp: log_simps)

lemma submitted_prefix:
  "submitted (invocation api expression ctx h) =
     take (length (submitted (invocation api expression ctx h))) (commands ctx expression)"
  by (cases rule: invocation_cases[of api expression ctx h]) (auto simp: log_simps)

lemma all_succeed_cases:
  assumes "\<forall>s\<in>set (submissions (invocation api expression ctx h)). GetError (returned s) = []"
  obtains subs where
      "invocation api expression ctx h =
         Call_SBCommandReturnObject # Call_GetCommandInterpreter # map HC subs
           @ [Call_GetSelectedTarget, Call_GetProcess (target_at_resume api expression ctx h),
              Call_SetStatus eReturnStatusSuccessContinuingNoResult,
              Call_SetAsync True, Call_Continue (process_of (target_at_resume api expression ctx h))]"
      "length subs = 4"
      "map cmd subs = commands ctx expression"
proof (cases rule: invocation_cases[of api expression ctx h])
  case (failed subs)
  have subs: "submissions (invocation api expression ctx h) = subs"
    using failed(1) by (simp add: log_simps)
  have "last subs \<in> set subs"
    using failed(2) by simp
  with failed(7) assms subs show ?thesis by auto
next
  case (succeeded subs)
  then show ?thesis by (intro that)
qed

lemma some_fails_cases:
  assumes "\<exists>s\<in>set (submissions (invocation api expression ctx h)). GetError (returned s) \<noteq> []"
  obtains subs where
      "invocation api expression ctx h =
         Call_SBCommandReturnObject # Call_GetCommandInterpreter # map HC subs
           @ [Call_SetError (GetError (returned (last subs)))]"
      "subs \<noteq> []"
      "map cmd subs = take (length subs) (commands ctx expression)"
      "host (invoke api expression ctx h) =
         snd (evaluated api (map cmd subs) (SBCommandReturnObject_new, h))"
proof (cases rule: invocation_cases[of api expression ctx h])
  case (failed subs)
  then show ?thesis by (intro that)
next
  case (succeeded subs)
  have subs: "submissions (invocation api expression ctx h) = subs"
    using succeeded(1) by (simp add: log_simps)
  with succeeded(5) assms show ?thesis by auto
qed

lemma third_command:
  "commands ctx expression ! 2 = ''e -l swift -- TreeDumpDebugger.present('' @ expression @ '')''"
  by (simp add: commands_def)

lemma submitted_nth:
  assumes "i < length (submitted (invocation api expression ctx h))"
  shows "submitted (invocation api expression ctx h) ! i = commands ctx expression ! i"
proof -
  have "submitted (invocation api expression ctx h) ! i =
      take (length (submitted (invocation api expression ctx h))) (commands ctx expression) ! i"
    using submitted_prefix[of api expression ctx h] by simp
  also have "\<dots> = commands ctx expression ! i"
    using assms by simp
  finally show ?thesis .
qed

lemma not_resumed: "resumed xs = [] \<Longrightarrow> Call_Continue p \<notin> set xs"
  by (induction xs rule: resumed.induct) auto

lemma chained_nth:
  "chained r subs \<Longrightarrow> Suc i < length subs \<Longrightarrow> passed (subs ! Suc i) = returned (subs ! i)"
proof (induction subs arbitrary: r i)
  case Nil
  then show ?case by simp
next
  case (Cons s ss)
  show ?case
  proof (cases i)
    case 0
    with Cons.prems show ?thesis by (cases ss) auto
  next
    case (Suc j)
    with Cons.prems have "chained (returned s) ss" and "Suc j < length ss" by auto
    then have "passed (ss ! Suc j) = returned (ss ! j)" by (rule Cons.IH)
    with Suc show ?thesis by simp
  qed
qed

lemma chained_hd: "chained r subs \<Longrightarrow> subs \<noteq> [] \<Longrightarrow> passed (hd subs) = r"
  by (cases subs) auto

lemma invocation_target_name:
  assumes "str (target ctx1) = str (target ctx2)"
  shows "invocation api expression ctx1 h = invocation api expression ctx2 h"
proof -
  have "commands ctx1 expression = commands ctx2 expression"
    using assms by (simp add: commands_def)
  then show ?thesis
    by (simp add: invocation_def invoke_def handle_tdump_command_def)
qed

section \<open>The claims\<close>


text \<open>
  C2. For every \<open>k\<close> from 1 to 4: if the \<open>k\<close>-th evaluation of an invocation leaves an
  error in the return object, then exactly the first \<open>k\<close> commands were submitted (the
  later ones never are), the only write to the result sink is \<^verbatim>\<open>SetError\<close> with
  exactly that error text, and no process is resumed.
\<close>

theorem fail_fast:
  assumes "1 \<le> k" and "k \<le> 4"
    and "k \<le> length (submissions (invocation api expression ctx h))"
    and "GetError (returned (submissions (invocation api expression ctx h) ! (k - 1))) \<noteq> []"
  shows "submitted (invocation api expression ctx h) = take k (commands ctx expression)
       \<and> sink_writes (invocation api expression ctx h) =
           [Call_SetError (GetError (returned (submissions (invocation api expression ctx h) ! (k - 1))))]
       \<and> resumed (invocation api expression ctx h) = []"
proof (cases rule: invocation_cases[of api expression ctx h])
  case (failed subs)
  have subs: "submissions (invocation api expression ctx h) = subs"
    using failed(1) by (simp add: log_simps)
  have k: "k = length subs" and lst: "subs ! (k - 1) = last subs"
    using failing_is_last[OF failed(6) assms(1)] assms(3,4) subs by auto
  show ?thesis
    using failed(1,4) k lst subs by (simp add: log_simps)
next
  case (succeeded subs)
  have subs: "submissions (invocation api expression ctx h) = subs"
    using succeeded(1) by (simp add: log_simps)
  have "subs ! (k - 1) \<in> set subs"
    using assms(1,3) subs by (intro nth_mem) simp
  with succeeded(5) assms(4) subs show ?thesis by auto
qed

text \<open>The third evaluation fails in the mocked host \<open>mock 3\<close>.\<close>

theorem fail_fast_witness:
  "submitted (invocation (mock 3) ''self.view'' ctx_MyApp (0, Other)) =
     take 3 (commands ctx_MyApp ''self.view'')
   \<and> sink_writes (invocation (mock 3) ''self.view'' ctx_MyApp (0, Other)) =
       [Call_SetError (GetError (returned
          (submissions (invocation (mock 3) ''self.view'' ctx_MyApp (0, Other)) ! (3 - 1))))]
   \<and> resumed (invocation (mock 3) ''self.view'' ctx_MyApp (0, Other)) = []"
proof (rule fail_fast)
  show "1 \<le> (3::nat)" and "(3::nat) \<le> 4" by simp_all
  show "3 \<le> length (submissions (invocation (mock 3) ''self.view'' ctx_MyApp (0, Other)))"
    by (simp add: mock_fail3_run)
  show "GetError (returned (submissions (invocation (mock 3) ''self.view'' ctx_MyApp (0, Other)) ! (3 - 1))) \<noteq> []"
    by (simp add: mock_fail3_run GetError_def)
qed

text \<open>
  C3. If every evaluation of an invocation leaves no error, which is the case exactly
  when all four succeed, then the handler resumes a process exactly once, calls
  \<^verbatim>\<open>SetAsync(True)\<close> exactly once, and its only write to the result sink is
  \<^verbatim>\<open>SetStatus(eReturnStatusSuccessContinuingNoResult)\<close>: no error is attached.
\<close>

theorem success_path:
  assumes "\<forall>s\<in>set (submissions (invocation api expression ctx h)). GetError (returned s) = []"
  shows "length (resumed (invocation api expression ctx h)) = 1
       \<and> async_sets (invocation api expression ctx h) = [True]
       \<and> sink_writes (invocation api expression ctx h) =
           [Call_SetStatus eReturnStatusSuccessContinuingNoResult]"
  using assms by (rule all_succeed_cases) (simp add: log_simps)

text \<open>
  C3, at the mocked host that never fails.
\<close>

theorem success_path_witness:
  "length (resumed (invocation (mock 0) ''self.view'' ctx_MyApp (0, MyApp))) = 1
   \<and> async_sets (invocation (mock 0) ''self.view'' ctx_MyApp (0, MyApp)) = [True]
   \<and> sink_writes (invocation (mock 0) ''self.view'' ctx_MyApp (0, MyApp)) =
       [Call_SetStatus eReturnStatusSuccessContinuingNoResult]"
  by (rule success_path) (simp add: mock_ok_run GetError_def)

text \<open>
  C4, as amended. For the expression \<^verbatim>\<open>self.view\<close> and a target named \<^verbatim>\<open>MyApp\<close>, when all
  evaluations succeed the command strings submitted are exactly the four below, each with
  the evaluator prefix \<^verbatim>\<open>e -l swift -- \<close> that the handler puts before the Swift text; the
  only write to the result sink is the success status (no error), and a process is
  resumed exactly once.
\<close>

theorem scenario:
  assumes "str (target ctx) = ''MyApp''"
    and "\<forall>s\<in>set (submissions (invocation api ''self.view'' ctx h)). GetError (returned s) = []"
  shows "submitted (invocation api ''self.view'' ctx h) =
           [''e -l swift -- import MyApp'', ''e -l swift -- import UIKit'',
            ''e -l swift -- TreeDumpDebugger.present(self.view)'',
            ''e -l swift -- CATransaction.flush()'']
       \<and> sink_writes (invocation api ''self.view'' ctx h) =
           [Call_SetStatus eReturnStatusSuccessContinuingNoResult]
       \<and> length (resumed (invocation api ''self.view'' ctx h)) = 1"
  using assms(2)
proof (rule all_succeed_cases)
  fix subs
  assume "invocation api ''self.view'' ctx h =
         Call_SBCommandReturnObject # Call_GetCommandInterpreter # map HC subs
           @ [Call_GetSelectedTarget, Call_GetProcess (target_at_resume api ''self.view'' ctx h),
              Call_SetStatus eReturnStatusSuccessContinuingNoResult,
              Call_SetAsync True, Call_Continue (process_of (target_at_resume api ''self.view'' ctx h))]"
    and "map cmd subs = commands ctx ''self.view''"
  then show ?thesis
    using assms(1) by (simp add: log_simps commands_def)
qed

text \<open>
  C4, at the mocked host that never fails.
\<close>

theorem scenario_witness:
  "submitted (invocation (mock 0) ''self.view'' ctx_MyApp (0, MyApp)) =
           [''e -l swift -- import MyApp'', ''e -l swift -- import UIKit'',
            ''e -l swift -- TreeDumpDebugger.present(self.view)'',
            ''e -l swift -- CATransaction.flush()'']
       \<and> sink_writes (invocation (mock 0) ''self.view'' ctx_MyApp (0, MyApp)) =
           [Call_SetStatus eReturnStatusSuccessContinuingNoResult]
       \<and> length (resumed (invocation (mock 0) ''self.view'' ctx_MyApp (0, MyApp))) = 1"
proof (rule scenario)
  show "str (target ctx_MyApp) = ''MyApp''"
    by (simp add: ctx_MyApp_def MyApp_def)
  show "\<forall>s\<in>set (submissions (invocation (mock 0) ''self.view'' ctx_MyApp (0, MyApp))).
          GetError (returned s) = []"
    by (simp add: mock_ok_run GetError_def)
qed

text \<open>
  C4, as claimed, fails: the strings submitted are not the bare Swift texts
  \<^verbatim>\<open>import MyApp\<close>, \<^verbatim>\<open>import UIKit\<close>, \<^verbatim>\<open>TreeDumpDebugger.present(self.view)\<close> and
  \<^verbatim>\<open>CATransaction.flush()\<close>.
\<close>

theorem scenario_counterexample:
  "submitted (invocation (mock 0) ''self.view'' ctx_MyApp (0, MyApp)) \<noteq>
     [''import MyApp'', ''import UIKit'', ''TreeDumpDebugger.present(self.view)'',
      ''CATransaction.flush()'']"
  by (simp add: mock_ok_run submitted_def)

text \<open>
  C5. The third command is the fixed text \<^verbatim>\<open>e -l swift -- TreeDumpDebugger.present(\<close>, the
  user's expression exactly as given, and \<^verbatim>\<open>)\<close>; whenever a third command is submitted
  it is this string. Nothing is quoted or escaped: the command holds as many single
  quotes as the expression does, so that the expression \<^verbatim>\<open>it's\<close> yields a command with
  an unpaired quote, \<^verbatim>\<open>TreeDumpDebugger.present(it's)\<close>.
\<close>

theorem raw_interpolation:
  "commands ctx expression ! 2 = ''e -l swift -- TreeDumpDebugger.present('' @ expression @ '')''
   \<and> (2 < length (submitted (invocation api expression ctx h)) \<longrightarrow>
        submitted (invocation api expression ctx h) ! 2 =
          ''e -l swift -- TreeDumpDebugger.present('' @ expression @ '')'')
   \<and> count_list (commands ctx expression ! 2) (CHR 0x27) = count_list expression (CHR 0x27)
   \<and> commands ctx ''it's'' ! 2 = ''e -l swift -- TreeDumpDebugger.present(it's)''"
proof (intro conjI impI)
  show "commands ctx expression ! 2 = ''e -l swift -- TreeDumpDebugger.present('' @ expression @ '')''"
    by (rule third_command)
  show "submitted (invocation api expression ctx h) ! 2 =
          ''e -l swift -- TreeDumpDebugger.present('' @ expression @ '')''"
    if "2 < length (submitted (invocation api expression ctx h))"
    using submitted_nth[OF that] by (simp add: third_command)
  show "count_list (commands ctx expression ! 2) (CHR 0x27) = count_list expression (CHR 0x27)"
    by (simp add: third_command)
  show "commands ctx ''it's'' ! 2 = ''e -l swift -- TreeDumpDebugger.present(it's)''"
    by (simp add: third_command)
qed

text \<open>
  C5, at the mocked host that never fails, for the expression \<^verbatim>\<open>it's\<close>.
\<close>

theorem raw_interpolation_witness:
  "submitted (invocation (mock 0) ''it's'' ctx_MyApp (0, MyApp)) ! 2 =
     ''e -l swift -- TreeDumpDebugger.present(it's)''"
proof -
  have "2 < length (submitted (invocation (mock 0) ''it's'' ctx_MyApp (0, MyApp)))"
    by (simp add: mock_quote_run)
  with raw_interpolation[of ctx_MyApp "''it's''" "mock 0" "(0, MyApp)"]
  show ?thesis by simp
qed

text \<open>
  C6. When all evaluations succeed, the calls of the invocation end with the write of the
  result status, then \<^verbatim>\<open>SetAsync(True)\<close>, then \<^verbatim>\<open>Continue\<close>, and none of the three kinds
  of call occurs earlier. In every invocation, a call of \<^verbatim>\<open>Continue\<close> has a call of
  \<^verbatim>\<open>SetAsync(True)\<close> before it.
\<close>

theorem resume_order:
  "((\<forall>s\<in>set (submissions (invocation api expression ctx h)). GetError (returned s) = []) \<longrightarrow>
      (\<exists>pre p. invocation api expression ctx h =
                 pre @ [Call_SetStatus eReturnStatusSuccessContinuingNoResult,
                        Call_SetAsync True, Call_Continue p]
               \<and> sink_writes pre = [] \<and> async_sets pre = [] \<and> resumed pre = []))
   \<and> (\<forall>i p. i < length (invocation api expression ctx h)
             \<and> invocation api expression ctx h ! i = Call_Continue p \<longrightarrow>
           Call_SetAsync True \<in> set (take i (invocation api expression ctx h)))"
proof (intro conjI impI allI)
  assume "\<forall>s\<in>set (submissions (invocation api expression ctx h)). GetError (returned s) = []"
  then show "\<exists>pre p. invocation api expression ctx h =
                 pre @ [Call_SetStatus eReturnStatusSuccessContinuingNoResult,
                        Call_SetAsync True, Call_Continue p]
               \<and> sink_writes pre = [] \<and> async_sets pre = [] \<and> resumed pre = []"
  proof (rule all_succeed_cases)
    fix subs
    let ?tg = "target_at_resume api expression ctx h"
    let ?pre = "Call_SBCommandReturnObject # Call_GetCommandInterpreter # map HC subs
           @ [Call_GetSelectedTarget, Call_GetProcess ?tg]"
    assume "invocation api expression ctx h =
         Call_SBCommandReturnObject # Call_GetCommandInterpreter # map HC subs
           @ [Call_GetSelectedTarget, Call_GetProcess ?tg,
              Call_SetStatus eReturnStatusSuccessContinuingNoResult,
              Call_SetAsync True, Call_Continue (process_of ?tg)]"
    then have "invocation api expression ctx h =
        ?pre @ [Call_SetStatus eReturnStatusSuccessContinuingNoResult,
                Call_SetAsync True, Call_Continue (process_of ?tg)]"
      by simp
    moreover have "sink_writes ?pre = [] \<and> async_sets ?pre = [] \<and> resumed ?pre = []"
      by (simp add: log_simps)
    ultimately show ?thesis by blast
  qed
next
  fix i p
  let ?t = "invocation api expression ctx h"
  assume ip: "i < length ?t \<and> ?t ! i = Call_Continue p"
  show "Call_SetAsync True \<in> set (take i ?t)"
  proof (cases rule: invocation_cases[of api expression ctx h])
    case (failed subs)
    have "resumed ?t = []"
      using failed(1) by (simp add: log_simps)
    then have "Call_Continue p \<notin> set ?t" by (rule not_resumed)
    moreover have "?t ! i \<in> set ?t" using ip by (intro nth_mem) simp
    ultimately show ?thesis using ip by simp
  next
    case (succeeded subs)
    let ?tg = "target_at_resume api expression ctx h"
    let ?xs = "Call_SBCommandReturnObject # Call_GetCommandInterpreter # map HC subs
           @ [Call_GetSelectedTarget, Call_GetProcess ?tg,
              Call_SetStatus eReturnStatusSuccessContinuingNoResult]"
    have t: "?t = ?xs @ [Call_SetAsync True, Call_Continue (process_of ?tg)]"
      using succeeded(1) by simp
    have "resumed ?xs = []" by (simp add: log_simps)
    then have nx: "Call_Continue p \<notin> set ?xs" by (rule not_resumed)
    have "\<not> i < length ?xs"
    proof
      assume lt: "i < length ?xs"
      then have "?t ! i = ?xs ! i" by (simp only: t nth_append if_True)
      moreover have "?xs ! i \<in> set ?xs" using lt by (rule nth_mem)
      ultimately show False using nx ip by simp
    qed
    moreover have "i \<noteq> length ?xs"
    proof
      assume "i = length ?xs"
      then have "?t ! i = Call_SetAsync True" by (simp only: t nth_append_length)
      with ip show False by simp
    qed
    moreover have "i < length ?xs + 2" using ip by (simp only: t) simp
    ultimately have "i = Suc (length ?xs)" by arith
    then have "take i ?t = ?xs @ [Call_SetAsync True]"
      by (simp only: t) simp
    then show ?thesis by simp
  qed
qed

text \<open>
  C6, at the mocked host that never fails: the call at index 10 is \<^verbatim>\<open>Continue\<close>.
\<close>

theorem resume_order_witness:
  "invocation (mock 0) ''self.view'' ctx_MyApp (0, MyApp) ! 10 = Call_Continue 1
   \<and> Call_SetAsync True \<in> set (take 10 (invocation (mock 0) ''self.view'' ctx_MyApp (0, MyApp)))"
proof -
  have a: "invocation (mock 0) ''self.view'' ctx_MyApp (0, MyApp) ! 10 = Call_Continue 1"
    by (simp add: mock_ok_run MyApp_def)
  have b: "10 < length (invocation (mock 0) ''self.view'' ctx_MyApp (0, MyApp))"
    by (simp add: mock_ok_run)
  from resume_order[of "mock 0" "''self.view''" ctx_MyApp "(0, MyApp)"] a b
  have "Call_SetAsync True \<in> set (take 10 (invocation (mock 0) ''self.view'' ctx_MyApp (0, MyApp)))"
    by blast
  with a show ?thesis by simp
qed

text \<open>
  C7. If some evaluation of an invocation leaves an error, the calls of the invocation
  are the allocation of the return object, \<^verbatim>\<open>GetCommandInterpreter\<close>, the submissions
  and one final \<^verbatim>\<open>SetError\<close>, and nothing else: no call that could undo a submission,
  no \<^verbatim>\<open>SetAsync\<close>, no \<^verbatim>\<open>SetStatus\<close>, no \<^verbatim>\<open>Continue\<close>. The only write to the result sink
  is that \<^verbatim>\<open>SetError\<close>, and the host is left in the state that the evaluation of the
  submitted commands produced.
\<close>

theorem no_rollback:
  assumes "\<exists>s\<in>set (submissions (invocation api expression ctx h)). GetError (returned s) \<noteq> []"
  shows "invocation api expression ctx h =
           Call_SBCommandReturnObject # Call_GetCommandInterpreter
             # map HC (submissions (invocation api expression ctx h))
             @ [Call_SetError (GetError (returned (last (submissions (invocation api expression ctx h)))))]
       \<and> sink_writes (invocation api expression ctx h) =
           [Call_SetError (GetError (returned (last (submissions (invocation api expression ctx h)))))]
       \<and> async_sets (invocation api expression ctx h) = []
       \<and> resumed (invocation api expression ctx h) = []
       \<and> host (invoke api expression ctx h) =
           snd (evaluated api (submitted (invocation api expression ctx h))
                  (SBCommandReturnObject_new, h))"
  using assms
proof (rule some_fails_cases)
  fix subs
  assume t: "invocation api expression ctx h =
         Call_SBCommandReturnObject # Call_GetCommandInterpreter # map HC subs
           @ [Call_SetError (GetError (returned (last subs)))]"
    and hst: "host (invoke api expression ctx h) =
         snd (evaluated api (map cmd subs) (SBCommandReturnObject_new, h))"
  have subs: "submissions (invocation api expression ctx h) = subs"
    using t by (simp add: log_simps)
  show ?thesis
    unfolding submitted_def subs using t hst by (simp add: log_simps)
qed

text \<open>
  C7, at the mocked host whose third evaluation fails.
\<close>

theorem no_rollback_witness:
  "invocation (mock 3) ''self.view'' ctx_MyApp (0, MyApp) =
           Call_SBCommandReturnObject # Call_GetCommandInterpreter
             # map HC (submissions (invocation (mock 3) ''self.view'' ctx_MyApp (0, MyApp)))
             @ [Call_SetError (GetError (returned (last (submissions (invocation (mock 3) ''self.view'' ctx_MyApp (0, MyApp))))))]
       \<and> sink_writes (invocation (mock 3) ''self.view'' ctx_MyApp (0, MyApp)) =
           [Call_SetError (GetError (returned (last (submissions (invocation (mock 3) ''self.view'' ctx_MyApp (0, MyApp))))))]
       \<and> async_sets (invocation (mock 3) ''self.view'' ctx_MyApp (0, MyApp)) = []
       \<and> resumed (invocation (mock 3) ''self.view'' ctx_MyApp (0, MyApp)) = []
       \<and> host (invoke (mock 3) ''self.view'' ctx_MyApp (0, MyApp)) =
           snd (evaluated (mock 3) (submitted (invocation (mock 3) ''self.view'' ctx_MyApp (0, MyApp)))
                  (SBCommandReturnObject_new, (0, MyApp)))"
  by (rule no_rollback) (simp add: mock_fail3_run GetError_def)

text \<open>
  C8. When all evaluations succeed, the one process resumed is the process of the target
  that the debugger reports as selected in the host state reached after the four
  evaluations; \<^verbatim>\<open>GetSelectedTarget\<close> is called after all four submissions. The process
  and the target of the execution context play no part.
\<close>

theorem resumes_selected_target:
  assumes "\<forall>s\<in>set (submissions (invocation api expression ctx h)). GetError (returned s) = []"
  shows "resumed (invocation api expression ctx h) =
           [process_of (selected_target api
              (snd (evaluated api (commands ctx expression) (SBCommandReturnObject_new, h))))]
       \<and> (\<exists>pre post. invocation api expression ctx h = pre @ Call_GetSelectedTarget # post
             \<and> submitted pre = commands ctx expression \<and> submissions post = [])"
  using assms
proof (rule all_succeed_cases)
  fix subs
  let ?tg = "target_at_resume api expression ctx h"
  let ?pre = "Call_SBCommandReturnObject # Call_GetCommandInterpreter # map HC subs"
  let ?post = "[Call_GetProcess ?tg, Call_SetStatus eReturnStatusSuccessContinuingNoResult,
              Call_SetAsync True, Call_Continue (process_of ?tg)]"
  assume t: "invocation api expression ctx h =
         Call_SBCommandReturnObject # Call_GetCommandInterpreter # map HC subs
           @ [Call_GetSelectedTarget, Call_GetProcess ?tg,
              Call_SetStatus eReturnStatusSuccessContinuingNoResult,
              Call_SetAsync True, Call_Continue (process_of ?tg)]"
    and c: "map cmd subs = commands ctx expression"
  have "resumed (invocation api expression ctx h) = [process_of ?tg]"
    using t by (simp add: log_simps)
  moreover have "invocation api expression ctx h = ?pre @ Call_GetSelectedTarget # ?post"
    using t by simp
  moreover have "submitted ?pre = commands ctx expression \<and> submissions ?post = []"
    using c by (simp add: log_simps)
  ultimately show ?thesis
    unfolding target_at_resume_def by blast
qed

text \<open>
  C8, at a mocked host whose selected target \<open>Other\<close> (process 2) is not the target of
  the execution context (\<open>MyApp\<close>, process 1): process 2 is resumed.
\<close>

theorem resumes_selected_target_witness:
  "resumed (invocation (mock 0) ''self.view'' ctx_MyApp (0, Other)) = [2]
   \<and> process ctx_MyApp = 1 \<and> process_of (target ctx_MyApp) = 1"
proof -
  have "\<forall>s\<in>set (submissions (invocation (mock 0) ''self.view'' ctx_MyApp (0, Other))).
          GetError (returned s) = []"
    by (simp add: mock_ok_run GetError_def)
  from resumes_selected_target[OF this]
  have "resumed (invocation (mock 0) ''self.view'' ctx_MyApp (0, Other)) =
           [process_of (selected_target (mock 0)
              (snd (evaluated (mock 0) (commands ctx_MyApp ''self.view'')
                 (SBCommandReturnObject_new, (0, Other)))))]"
    by (rule conjunct1)
  then show ?thesis
    by (simp add: evaluated_def commands_def mock_def Other_def ctx_MyApp_def MyApp_def)
qed

text \<open>
  C9. An invocation allocates one return object. The first submission is passed the
  object as allocated, and every later submission is passed the object as the
  submission before it left it, so nothing clears it in between; there are between one
  and four submissions. The error inspected after a step is the one the object holds
  after that step's submission: every submission but the last left no error (the loop
  went on), a last submission that left no error is the fourth, \<^verbatim>\<open>SetError\<close> is called
  exactly when the last submission left an error, and the text it is given is that
  error.
\<close>

theorem one_return_object:
  "allocations (invocation api expression ctx h) = 1
   \<and> submissions (invocation api expression ctx h) \<noteq> []
   \<and> length (submissions (invocation api expression ctx h)) \<le> 4
   \<and> passed (hd (submissions (invocation api expression ctx h))) = SBCommandReturnObject_new
   \<and> (\<forall>i. Suc i < length (submissions (invocation api expression ctx h)) \<longrightarrow>
         passed (submissions (invocation api expression ctx h) ! Suc i) =
         returned (submissions (invocation api expression ctx h) ! i))
   \<and> (\<forall>e. Call_SetError e \<in> set (invocation api expression ctx h) \<longrightarrow>
         e = GetError (returned (last (submissions (invocation api expression ctx h)))))
   \<and> (\<forall>s\<in>set (butlast (submissions (invocation api expression ctx h))).
         GetError (returned s) = [])
   \<and> ((\<exists>e. Call_SetError e \<in> set (invocation api expression ctx h)) =
        (GetError (returned (last (submissions (invocation api expression ctx h)))) \<noteq> []))
   \<and> (GetError (returned (last (submissions (invocation api expression ctx h)))) = [] \<longrightarrow>
        length (submissions (invocation api expression ctx h)) = 4)"
proof (cases rule: invocation_cases[of api expression ctx h])
  case (failed subs)
  have subs: "submissions (invocation api expression ctx h) = subs"
    using failed(1) by (simp add: log_simps)
  have c1: "allocations (invocation api expression ctx h) = 1"
    unfolding failed(1) by (simp add: log_simps)
  have c6: "\<forall>e. Call_SetError e \<in> set (invocation api expression ctx h) \<longrightarrow>
         e = GetError (returned (last subs))"
    unfolding failed(1) by (auto simp: HC_def)
  have "Call_SetError (GetError (returned (last subs))) \<in> set (invocation api expression ctx h)"
    unfolding failed(1) by simp
  then have c8: "(\<exists>e. Call_SetError e \<in> set (invocation api expression ctx h)) =
        (GetError (returned (last subs)) \<noteq> [])"
    using failed(7) by blast
  have c9: "GetError (returned (last subs)) = [] \<longrightarrow> length subs = 4"
    using failed(7) by simp
  have c5: "\<forall>i. Suc i < length subs \<longrightarrow> passed (subs ! Suc i) = returned (subs ! i)"
    using chained_nth[OF failed(5)] by blast
  have c4: "passed (hd subs) = SBCommandReturnObject_new"
    using failed(5,2) by (rule chained_hd)
  show ?thesis
    unfolding subs using c1 failed(2) failed(3) c4 c5 c6 failed(6) c8 c9
    by (intro conjI)
next
  case (succeeded subs)
  have subs: "submissions (invocation api expression ctx h) = subs"
    using succeeded(1) by (simp add: log_simps)
  have ne: "subs \<noteq> []" using succeeded(2) by auto
  have c1: "allocations (invocation api expression ctx h) = 1"
    unfolding succeeded(1) by (simp add: log_simps)
  have c3: "length subs \<le> 4" using succeeded(2) by simp
  have none: "\<forall>e. Call_SetError e \<notin> set (invocation api expression ctx h)"
    unfolding succeeded(1) by (auto simp: HC_def)
  then have c6: "\<forall>e. Call_SetError e \<in> set (invocation api expression ctx h) \<longrightarrow>
         e = GetError (returned (last subs))"
    by blast
  have c7: "\<forall>s\<in>set (butlast subs). GetError (returned s) = []"
    using succeeded(5) by (blast dest: in_set_butlastD)
  have "last subs \<in> set subs" using ne by simp
  then have lst: "GetError (returned (last subs)) = []"
    using succeeded(5) by blast
  have c8: "(\<exists>e. Call_SetError e \<in> set (invocation api expression ctx h)) =
        (GetError (returned (last subs)) \<noteq> [])"
    using none lst by simp
  have c9: "GetError (returned (last subs)) = [] \<longrightarrow> length subs = 4"
    using succeeded(2) by simp
  have c5: "\<forall>i. Suc i < length subs \<longrightarrow> passed (subs ! Suc i) = returned (subs ! i)"
    using chained_nth[OF succeeded(4)] by blast
  have c4: "passed (hd subs) = SBCommandReturnObject_new"
    using succeeded(4) ne by (rule chained_hd)
  show ?thesis
    unfolding subs using c1 ne c3 c4 c5 c6 c7 c8 c9
    by (intro conjI)
qed

text \<open>
  C9, at the mocked host whose third evaluation fails and whose other evaluations append
  to the output text: the third submission is passed the output of the first two, the
  first two left no error, and \<^verbatim>\<open>SetError\<close> is called with the error that the object
  holds after the third.
\<close>

theorem one_return_object_witness:
  "passed (submissions (invocation (mock 3) ''self.view'' ctx_MyApp (0, MyApp)) ! Suc 1) =
     \<lparr>error = [], out = ''++''\<rparr>
   \<and> returned (submissions (invocation (mock 3) ''self.view'' ctx_MyApp (0, MyApp)) ! 1) =
     \<lparr>error = [], out = ''++''\<rparr>
   \<and> GetError (returned (last (submissions
        (invocation (mock 3) ''self.view'' ctx_MyApp (0, MyApp))))) =
     ''error: e -l swift -- TreeDumpDebugger.present(self.view)''
   \<and> Call_SetError (GetError (returned (last (submissions
        (invocation (mock 3) ''self.view'' ctx_MyApp (0, MyApp))))))
       \<in> set (invocation (mock 3) ''self.view'' ctx_MyApp (0, MyApp))"
proof -
  let ?t = "invocation (mock 3) ''self.view'' ctx_MyApp (0, MyApp)"
  note inst = one_return_object[of "mock 3" "''self.view''" ctx_MyApp "(0, MyApp)"]
  have len: "Suc 1 < length (submissions ?t)"
    by (simp add: mock_fail3_run)
  have r: "returned (submissions ?t ! 1) = \<lparr>error = [], out = ''++''\<rparr>"
    by (simp add: mock_fail3_run)
  have e: "GetError (returned (last (submissions ?t))) =
      ''error: e -l swift -- TreeDumpDebugger.present(self.view)''"
    by (simp add: mock_fail3_run GetError_def)
  then have ne: "GetError (returned (last (submissions ?t))) \<noteq> []"
    by simp
  from inst len have p: "passed (submissions ?t ! Suc 1) = returned (submissions ?t ! 1)"
    by blast
  from inst ne have "Call_SetError (GetError (returned (last (submissions ?t)))) \<in> set ?t"
    by blast
  with p r e show ?thesis by simp
qed

text \<open>
  C10, as amended. For two execution contexts whose targets have the same name and for the
  same expression, the command lists are equal; in the same host the strings submitted
  are identical; and for any two hosts the strings submitted agree position by position
  wherever both invocations submit one, and are identical when equally many are
  submitted. How many are submitted depends on the interpreter's answers.
\<close>

theorem submitted_deterministic:
  assumes "str (target ctxA) = str (target ctxB)"
  shows "commands ctxA expression = commands ctxB expression
       \<and> submitted (invocation api expression ctxA h) = submitted (invocation api expression ctxB h)
       \<and> (\<forall>i. i < length (submitted (invocation apiA expression ctxA hA))
              \<and> i < length (submitted (invocation apiB expression ctxB hB)) \<longrightarrow>
            submitted (invocation apiA expression ctxA hA) ! i =
            submitted (invocation apiB expression ctxB hB) ! i)
       \<and> (length (submitted (invocation apiA expression ctxA hA)) =
            length (submitted (invocation apiB expression ctxB hB)) \<longrightarrow>
          submitted (invocation apiA expression ctxA hA) =
            submitted (invocation apiB expression ctxB hB))"
proof (intro conjI allI impI)
  show c: "commands ctxA expression = commands ctxB expression"
    using assms by (simp add: commands_def)
  show "submitted (invocation api expression ctxA h) = submitted (invocation api expression ctxB h)"
    using assms by (simp add: invocation_target_name[of ctxA ctxB])
  show "submitted (invocation apiA expression ctxA hA) ! i =
        submitted (invocation apiB expression ctxB hB) ! i"
    if "i < length (submitted (invocation apiA expression ctxA hA))
          \<and> i < length (submitted (invocation apiB expression ctxB hB))" for i
    using that c by (simp add: submitted_nth)
  show "submitted (invocation apiA expression ctxA hA) =
          submitted (invocation apiB expression ctxB hB)"
    if "length (submitted (invocation apiA expression ctxA hA)) =
          length (submitted (invocation apiB expression ctxB hB))"
    using submitted_prefix[of apiA expression ctxA hA] submitted_prefix[of apiB expression ctxB hB]
      that c by simp
qed

text \<open>
  C10, at two invocations of which the first stops after one command.
\<close>

theorem submitted_deterministic_witness:
  "submitted (invocation (mock 1) ''self.view'' ctx_MyApp (0, MyApp)) ! 0 =
   submitted (invocation (mock 1) ''self.view'' \<lparr>target = MyApp, process = 9\<rparr> (1, Other)) ! 0"
proof -
  have n: "str (target ctx_MyApp) = str (target \<lparr>target = MyApp, process = 9\<rparr>)"
    by (simp add: ctx_MyApp_def)
  have a: "0 < length (submitted (invocation (mock 1) ''self.view'' ctx_MyApp (0, MyApp)))"
    unfolding mock_fail1_run by (simp add: submitted_def)
  have b: "0 < length (submitted (invocation (mock 1) ''self.view''
              \<lparr>target = MyApp, process = 9\<rparr> (1, Other)))"
    by (simp add: run_simps submitted_def)
  from submitted_deterministic[OF n, where expression = "''self.view''" and api = "mock 1"
      and h = "(0, MyApp)" and apiA = "mock 1" and hA = "(0, MyApp)" and apiB = "mock 1"
      and hB = "(1, Other)"]
  have "\<forall>i. i < length (submitted (invocation (mock 1) ''self.view'' ctx_MyApp (0, MyApp)))
            \<and> i < length (submitted (invocation (mock 1) ''self.view''
                  \<lparr>target = MyApp, process = 9\<rparr> (1, Other))) \<longrightarrow>
          submitted (invocation (mock 1) ''self.view'' ctx_MyApp (0, MyApp)) ! i =
          submitted (invocation (mock 1) ''self.view'' \<lparr>target = MyApp, process = 9\<rparr> (1, Other)) ! i"
    by (elim conjE)
  with a b show ?thesis by blast
qed

text \<open>
  C10, as claimed, fails: two invocations with the same target name and the same
  expression, in two states of the same mocked host. The first import fails in one state
  and one string is submitted; in the other state all four are.
\<close>

theorem submitted_deterministic_counterexample:
  "submitted (invocation (mock 1) ''self.view'' ctx_MyApp (0, MyApp)) \<noteq>
     submitted (invocation (mock 1) ''self.view'' ctx_MyApp (1, MyApp))"
  unfolding mock_late_run mock_fail1_run by (simp add: submitted_def)

end
